theory Spec2Isabelle
  imports Complex_Main "HOL-Library.Signed_Division"
begin

section \<open>The parallel trapezoidal rule of \<open>trap_merged.c\<close>\<close>

text \<open>
  The program is one C file: \<open>main\<close> (run by every process of the MPI job), the local
  integrator \<open>Trap\<close> and the integrand \<open>f\<close>.

  Numbers. C's \<open>float\<close> is modelled by \<^typ>\<open>real\<close>: every statement below is about
  the exact-arithmetic value of the expressions the code evaluates, not about their
  rounding. C's \<open>int\<close> is modelled by \<^typ>\<open>int\<close>, with C's truncating \<open>/\<close> and
  \<open>%\<close> written \<open>sdiv\<close> and \<open>smod\<close>. For \<open>n \<ge> 1\<close>, \<open>p \<ge> 1\<close> and \<open>0 \<le> my_rank < p\<close> the
  integer expressions of the program stay between \<open>0\<close> and \<open>n\<close> (lemma
  \<open>partition_int_range\<close> below), so no 32-bit wrap-around is reachable there.
\<close>

subsection \<open>The integrand (lines 185-191)\<close>

definition f :: "real \<Rightarrow> real" where
  "f x = x * x"

subsection \<open>The local integrator (lines 162-182)\<close>

text \<open>
  The \<open>for\<close> loop of \<open>Trap\<close>: \<open>for (i = 1; i <= local_n-1; i++) { x = x + h;
  integral = integral + f(x); }\<close>. The state is \<open>(i, x, integral)\<close>; the function returns
  the value of \<open>integral\<close> when the loop is left.
\<close>

function Trap_loop :: "int \<Rightarrow> real \<Rightarrow> int \<Rightarrow> real \<Rightarrow> real \<Rightarrow> real" where
  "Trap_loop local_n h i x integral =
     (if i \<le> local_n - 1
      then Trap_loop local_n h (i + 1) (x + h) (integral + f (x + h))
      else integral)"
  by pat_completeness auto
termination
  by (relation "measure (\<lambda>(local_n, h, i, x, integral). nat (local_n - i))") auto

declare Trap_loop.simps [simp del]

definition Trap :: "real \<Rightarrow> real \<Rightarrow> int \<Rightarrow> real \<Rightarrow> real" where
  "Trap local_a local_b local_n h =
     (let integral = (f local_a + f local_b) / 2;
          x = local_a;
          integral = Trap_loop local_n h 1 x integral
      in integral * h)"

subsection \<open>Command-line arguments at rank 0 (lines 36-38 and 70-81)\<close>

text \<open>
  \<open>argv\<close> is the list of the \<open>argc\<close> argument strings, the program name first. The C
  array behind it has \<open>argc + 1\<close> entries: \<open>argv[argc]\<close> is a null pointer that may be
  read, and only an index above \<open>argc\<close> lies past the array. A read therefore yields a
  pointer, \<open>Some s\<close> for an argument string and \<open>None\<close> for the null pointer, or the
  fault \<open>Bad_Arg_Read i\<close>. Handing the null pointer to \<open>atof\<close> or \<open>atoi\<close> is the fault
  \<open>Null_Arg i\<close>: the library reads the string behind it.

  The file includes \<open>stdio.h\<close>, \<open>math.h\<close> and \<open>mpi.h\<close> only, so neither \<open>atof\<close> nor
  \<open>atoi\<close> is declared where \<open>main\<close> calls them, and both calls are compiled as calls
  of a function returning \<open>int\<close>. For \<open>atoi\<close> that is the library's own result. For
  \<open>atof\<close>, which returns a \<open>double\<close>, it is not: the call expression has an \<open>int\<close>
  value that the C standard leaves undefined, and the assignment converts that \<open>int\<close>
  to \<open>float\<close>. The parameter \<open>atof\<close> of the model is this \<open>int\<close> value of the call
  expression as \<open>main\<close> sees it, whatever it is; \<open>atoi\<close> is the library function.
\<close>

datatype fault = Null_Arg nat | Bad_Arg_Read nat

record params =
  par_a :: real
  par_b :: real
  par_n :: int

definition argv_read :: "string list \<Rightarrow> nat \<Rightarrow> fault + string option" where
  "argv_read argv i =
     (if i < length argv then Inr (Some (argv ! i))
      else if i = length argv then Inr None
      else Inl (Bad_Arg_Read i))"

text \<open>The call \<open>fn(argv[i])\<close>: the read of \<open>argv[i]\<close>, then the library call on it.\<close>

definition call_on_arg :: "(string \<Rightarrow> int) \<Rightarrow> string list \<Rightarrow> nat \<Rightarrow> fault + int" where
  "call_on_arg fn argv i =
     (case argv_read argv i of
        Inl e \<Rightarrow> Inl e
      | Inr None \<Rightarrow> Inl (Null_Arg i)
      | Inr (Some s) \<Rightarrow> Inr (fn s))"

definition default_params :: params where
  "default_params = \<lparr>par_a = 0, par_b = 1, par_n = 1024\<rparr>"

definition process_args ::
  "(string \<Rightarrow> int) \<Rightarrow> (string \<Rightarrow> int) \<Rightarrow> string list \<Rightarrow> fault + params" where
  "process_args atof atoi argv =
     (if length argv > 1
      then (case call_on_arg atof argv 1 of Inl e \<Rightarrow> Inl e | Inr v1 \<Rightarrow>
           (case call_on_arg atof argv 2 of Inl e \<Rightarrow> Inl e | Inr v2 \<Rightarrow>
           (case call_on_arg atoi argv 3 of Inl e \<Rightarrow> Inl e | Inr v3 \<Rightarrow>
              Inr (default_params
                     \<lparr>par_a := real_of_int v1, par_b := real_of_int v2, par_n := v3\<rparr>))))
      else Inr default_params)"

subsection \<open>The partition computed by each process (lines 100-118)\<close>

record local_range =
  l_h :: real
  l_n :: int
  l_a :: real
  l_b :: real

definition partition :: "real \<Rightarrow> real \<Rightarrow> int \<Rightarrow> int \<Rightarrow> int \<Rightarrow> local_range" where
  "partition a b n p my_rank =
     (let h = (b - a) / real_of_int n;
          local_n = n sdiv p;
          residual = n smod p;
          local_a = a + real_of_int (my_rank * local_n) * h;
          (local_n, local_a) =
             (if my_rank < residual
              then (local_n + 1, local_a + real_of_int my_rank * h)
              else (local_n, local_a + real_of_int residual * h));
          local_b = local_a + real_of_int local_n * h
      in \<lparr>l_h = h, l_n = local_n, l_a = local_a, l_b = local_b\<rparr>)"

text \<open>Line 120: \<open>integral = Trap(local_a, local_b, local_n, h)\<close>.\<close>

definition local_integral :: "real \<Rightarrow> real \<Rightarrow> int \<Rightarrow> int \<Rightarrow> int \<Rightarrow> real" where
  "local_integral a b n p my_rank =
     (let r = partition a b n p my_rank in Trap (l_a r) (l_b r) (l_n r) (l_h r))"

text \<open>
  Line 141: \<open>MPI_Reduce\<close> with \<open>MPI_SUM\<close> delivers to rank 0 the sum of the \<open>integral\<close>
  of the ranks \<open>0 .. p-1\<close>.
\<close>

definition total :: "real \<Rightarrow> real \<Rightarrow> int \<Rightarrow> int \<Rightarrow> real" where
  "total a b n p = sum_list (map (local_integral a b n p) [0..p - 1])"

text \<open>Line 155: the closed form printed by rank 0, \<open>(pow(b,3)-pow(a,3))/3.0\<close>.\<close>

definition true_value :: "real \<Rightarrow> real \<Rightarrow> real" where
  "true_value a b = (b ^ 3 - a ^ 3) / 3"

subsection \<open>The whole run\<close>

text \<open>
  The observable events of a run of \<open>p\<close> processes, in program order: what is printed
  and which MPI operations take place. The \<open>verbose\<close> flag is the constant \<open>false\<close>, so
  the prints it guards never happen. The formatted numbers of a \<open>printf\<close> are kept as
  values. \<open>MPI_Abort\<close> ends every process of the job with the given code; the model
  stops the run there. The number of processes \<open>p\<close> is what \<open>MPI_Comm_size\<close> returns.
  The processes print their \<open>Process\<close> lines concurrently; the model lists them in
  rank order.
\<close>

datatype event =
    Printf string
  | MPI_Abort int
  | MPI_Bcast_float real
  | MPI_Bcast_int int
  | Print_Process int int real real
  | MPI_Reduce real
  | Print_Estimate int real real real
  | Print_True_Value real

datatype outcome = Crashed fault | Aborted int | Finalized

definition error_message :: string where
  "error_message = ''Error: n <= 0 or n is not a number.'' @ [CHR 0x0A]"

definition print_process :: "real \<Rightarrow> real \<Rightarrow> int \<Rightarrow> int \<Rightarrow> int \<Rightarrow> event" where
  "print_process a b n p my_rank =
     (let r = partition a b n p my_rank in Print_Process my_rank (l_n r) (l_a r) (l_b r))"

definition main ::
  "(string \<Rightarrow> int) \<Rightarrow> (string \<Rightarrow> int) \<Rightarrow> int \<Rightarrow> string list \<Rightarrow> outcome \<times> event list" where
  "main atof atoi p argv =
     (case process_args atof atoi argv of
        Inl e \<Rightarrow> (Crashed e, [])
      | Inr ps \<Rightarrow>
          let a = par_a ps; b = par_b ps; n = par_n ps in
          if n \<le> 0 then (Aborted 1, [Printf error_message, MPI_Abort 1])
          else (Finalized,
                [MPI_Bcast_float a, MPI_Bcast_float b, MPI_Bcast_int n]
                @ map (print_process a b n p) [0..p - 1]
                @ [MPI_Reduce (total a b n p),
                   Print_Estimate n a b (total a b n p),
                   Print_True_Value (true_value a b)]))"

subsection \<open>Auxiliary notions used in the statements\<close>

text \<open>
  \<open>count_below a b n p r\<close> is the number of subintervals given to the ranks below
  \<open>r\<close>: the sum of the \<open>local_n\<close> that the ranks \<open>0 .. r-1\<close> compute.
\<close>

definition count_below :: "real \<Rightarrow> real \<Rightarrow> int \<Rightarrow> int \<Rightarrow> int \<Rightarrow> int" where
  "count_below a b n p r = sum_list (map (\<lambda>q. l_n (partition a b n p q)) [0..r - 1])"

text \<open>
  \<open>trapezoids g u v\<close> is the sum of the areas (for unit width) of the trapezoids
  number \<open>u\<close> to \<open>v-1\<close> under the samples \<open>g\<close>.
\<close>

definition trapezoids :: "(int \<Rightarrow> real) \<Rightarrow> int \<Rightarrow> int \<Rightarrow> real" where
  "trapezoids g u v = (\<Sum>k = u..v - 1. (g k + g (k + 1)) / 2)"

section \<open>The local integrator\<close>

lemma Trap_loop_sum:
  "Trap_loop local_n h i x integral =
     integral + (\<Sum>k = i..local_n - 1. f (x + real_of_int (k - i + 1) * h))"
proof (induction local_n h i x integral rule: Trap_loop.induct)
  case (1 local_n h i x integral)
  show ?case
  proof (cases "i \<le> local_n - 1")
    case True
    have split: "{i..local_n - 1} = insert i {i + 1..local_n - 1}"
      using True by auto
    have shift: "(\<Sum>k = i + 1..local_n - 1. f (x + h + real_of_int (k - (i + 1) + 1) * h))
               = (\<Sum>k = i + 1..local_n - 1. f (x + real_of_int (k - i + 1) * h))"
      by (rule sum.cong) (simp_all add: algebra_simps)
    have "Trap_loop local_n h i x integral
            = Trap_loop local_n h (i + 1) (x + h) (integral + f (x + h))"
      using True by (subst Trap_loop.simps) simp
    also have "\<dots> = integral + f (x + h)
                    + (\<Sum>k = i + 1..local_n - 1. f (x + h + real_of_int (k - (i + 1) + 1) * h))"
      using "1.IH" [OF True] .
    also have "\<dots> = integral + (\<Sum>k = i..local_n - 1. f (x + real_of_int (k - i + 1) * h))"
      unfolding shift split by simp
    finally show ?thesis .
  next
    case False
    then show ?thesis by (subst Trap_loop.simps) simp
  qed
qed

lemma Trap_eq_sum:
  "Trap local_a local_b local_n h =
     h * ((f local_a + f local_b) / 2
          + (\<Sum>i = 1..local_n - 1. f (local_a + real_of_int i * h)))"
  by (simp add: Trap_def Trap_loop_sum)

text \<open>
  C4. For every \<open>local_a\<close>, \<open>local_b\<close>, \<open>h\<close> and every \<open>local_n \<ge> 0\<close>, \<open>Trap\<close>, which
  accumulates the sample point by repeated addition of \<open>h\<close>, returns in exact arithmetic
  \<open>h * ((f local_a + f local_b) / 2 + \<Sum>i=1..local_n-1. f (local_a + i * h))\<close> with
  \<open>f x = x\<^sup>2\<close>.
\<close>

theorem Trap_composite_formula:
  assumes "0 \<le> local_n"
  shows "Trap local_a local_b local_n h =
           h * ((f local_a + f local_b) / 2
                + (\<Sum>i = 1..local_n - 1. f (local_a + real_of_int i * h)))
         \<and> (\<forall>x. f x = x\<^sup>2)"
  by (simp add: Trap_eq_sum f_def power2_eq_square)

theorem Trap_composite_formula_witness:
  "(0::int) \<le> 3 \<and> Trap 0 3 3 1 = 1 * ((f 0 + f 3) / 2 + (f (0 + 1 * 1) + f (0 + 2 * 1)))
   \<and> Trap 0 3 3 1 = 19 / 2"
proof -
  have s: "{1..2} = {1, 2::int}" by auto
  show ?thesis
    using Trap_composite_formula [of 3 0 3 1] by (simp add: s f_def)
qed

section \<open>The partition\<close>

subsection \<open>Integer division on the inputs of a run\<close>

lemma sdiv_pos: "0 \<le> n \<Longrightarrow> 0 < p \<Longrightarrow> (n::int) sdiv p = n div p"
  by (simp add: signed_divide_int_def sgn_if)

lemma smod_pos: "0 \<le> n \<Longrightarrow> 0 < p \<Longrightarrow> (n::int) smod p = n mod p"
  by (simp add: signed_modulo_int_def sgn_if)

lemma partition_l_n:
  "1 \<le> n \<Longrightarrow> 1 \<le> p \<Longrightarrow>
   l_n (partition a b n p r) = (if r < n mod p then n div p + 1 else n div p)"
  by (simp add: partition_def Let_def sdiv_pos smod_pos)

lemma partition_l_h: "l_h (partition a b n p r) = (b - a) / real_of_int n"
  by (simp add: partition_def Let_def split: prod.splits)

lemma partition_l_b:
  "l_b (partition a b n p r) =
     l_a (partition a b n p r)
     + real_of_int (l_n (partition a b n p r)) * l_h (partition a b n p r)"
  by (simp add: partition_def Let_def split: prod.splits)

text \<open>
  The integer expressions of lines 101-113 stay within \<open>0 .. n\<close> for the inputs of a
  run, so C's 32-bit \<open>int\<close> computes them without overflow.
\<close>

lemma partition_int_range:
  assumes "1 \<le> n" "1 \<le> p" "0 \<le> r" "r < p"
  shows "0 \<le> n sdiv p \<and> n sdiv p \<le> n \<and> 0 \<le> n smod p \<and> n smod p < p
         \<and> 0 \<le> r * (n sdiv p) \<and> r * (n sdiv p) \<le> n
         \<and> 0 \<le> l_n (partition a b n p r) \<and> l_n (partition a b n p r) \<le> n"
proof -
  have d0: "0 \<le> n div p" using assms(1,2) by (simp add: pos_imp_zdiv_nonneg_iff)
  have m0: "0 \<le> n mod p" and m1: "n mod p < p" using assms(2) by simp_all
  have eq: "p * (n div p) + n mod p = n" by simp
  have "r * (n div p) \<le> p * (n div p)"
    using assms(4) d0 by (simp add: mult_right_mono)
  then have rd: "r * (n div p) \<le> n" using eq m0 by linarith
  have rd0: "0 \<le> r * (n div p)" using assms(3) d0 by simp
  have "1 * (n div p) \<le> p * (n div p)"
    using assms(2) d0 by (intro mult_right_mono) simp_all
  then have dn: "n div p \<le> n" using eq m0 by linarith
  have ln: "l_n (partition a b n p r) \<le> n"
  proof (cases "r < n mod p")
    case True
    then have "2 \<le> p" using assms(3) m1 by linarith
    then have "2 * (n div p) \<le> p * (n div p)" using d0 by (simp add: mult_right_mono)
    then have "2 * (n div p) + n mod p \<le> n" using eq by linarith
    then show ?thesis using True assms m0 by (simp add: partition_l_n)
  next
    case False
    then show ?thesis using dn assms by (simp add: partition_l_n)
  qed
  show ?thesis
    using assms d0 m0 m1 rd rd0 dn ln by (simp add: sdiv_pos smod_pos partition_l_n)
qed

subsection \<open>Counting the subintervals of the lower ranks\<close>

lemma sum_list_upto_snoc:
  "0 \<le> (r::int) \<Longrightarrow>
   sum_list (map g [0..r]) = sum_list (map g [0..r - 1]) + (g r :: 'a :: comm_monoid_add)"
  by (simp add: upto_rec2 [of 0 r])

lemma count_below_step:
  assumes "0 \<le> r"
  shows "count_below a b n p (r + 1) = count_below a b n p r + l_n (partition a b n p r)"
  using assms sum_list_upto_snoc [of r] by (simp add: count_below_def)

lemma count_below_closed:
  assumes "1 \<le> n" "1 \<le> p" "0 \<le> r"
  shows "count_below a b n p r = r * (n div p) + min r (n mod p)"
  using assms(3)
proof (induction r rule: int_ge_induct)
  case base
  have "0 \<le> n mod p" using assms(2) by simp
  then show ?case by (simp add: count_below_def)
next
  case (step i)
  show ?case
    unfolding count_below_step [OF step.hyps] step.IH
    using assms(1,2) by (simp add: partition_l_n algebra_simps min_def)
qed

lemma count_below_all:
  assumes "1 \<le> n" "1 \<le> p"
  shows "count_below a b n p p = n"
proof -
  have "n mod p < p" using pos_mod_bound [of p n] assms(2) by linarith
  then have "min p (n mod p) = n mod p" by linarith
  then show ?thesis using assms by (simp add: count_below_closed)
qed

lemma count_below_mono:
  assumes "1 \<le> n" "1 \<le> p" "0 \<le> r"
  shows "0 \<le> count_below a b n p r \<and> count_below a b n p r \<le> count_below a b n p (r + 1)"
proof -
  have d: "0 \<le> n div p" using assms(1,2) by (simp add: pos_imp_zdiv_nonneg_iff)
  have m: "0 \<le> n mod p" using assms(2) by simp
  have "0 \<le> r * (n div p)" using d assms(3) by simp
  then have c: "0 \<le> count_below a b n p r"
    unfolding count_below_closed [OF assms] using m assms(3) by linarith
  have "0 \<le> l_n (partition a b n p r)"
    using d assms(1,2) by (simp add: partition_l_n)
  then show ?thesis using c count_below_step [OF assms(3), of a b n p] by linarith
qed

lemma partition_l_a:
  assumes "1 \<le> n" "1 \<le> p" "0 \<le> r"
  shows "l_a (partition a b n p r) =
           a + (b - a) / real_of_int n * real_of_int (count_below a b n p r)"
  using assms
  by (simp add: count_below_closed partition_def Let_def sdiv_pos smod_pos algebra_simps min_def)

subsection \<open>Completeness\<close>

text \<open>
  C2. Partition completeness: for every \<open>n \<ge> 1\<close> and \<open>p \<ge> 1\<close>, the sum over the ranks
  \<open>0 .. p-1\<close> of the \<open>local_n\<close> computed by the partitioning code equals \<open>n\<close>.
\<close>

theorem partition_completeness:
  assumes "1 \<le> n" "1 \<le> p"
  shows "sum_list (map (\<lambda>r. l_n (partition a b n p r)) [0..p - 1]) = n"
  using count_below_all [OF assms, of a b] by (simp add: count_below_def)

theorem partition_completeness_witness:
  "(1::int) \<le> 10 \<and> (1::int) \<le> 3
   \<and> sum_list (map (\<lambda>r. l_n (partition 0 1 10 3 r)) [0..3 - 1]) = 10"
  using partition_completeness [of 10 3 0 1] by simp

subsection \<open>The remainder goes to the lowest ranks\<close>

text \<open>
  C7. Remainder tie-break: for every \<open>n \<ge> 1\<close> and \<open>p \<ge> 1\<close>, with \<open>base_count = n div p\<close>
  and \<open>residual = n mod p\<close>, each rank below \<open>residual\<close> gets \<open>base_count + 1\<close>
  subintervals and every other rank gets \<open>base_count\<close>; for \<open>n = 10\<close>, \<open>p = 3\<close> the
  ranks 0, 1, 2 get 4, 3, 3.
\<close>

theorem remainder_tie_break:
  assumes "1 \<le> n" "1 \<le> p"
  shows "l_n (partition a b n p r) = (if r < n mod p then n div p + 1 else n div p)
         \<and> map (\<lambda>q. l_n (partition a b 10 3 q)) [0, 1, 2] = [4, 3, 3]"
proof -
  have "map (\<lambda>q. l_n (partition a b 10 3 q)) [0, 1, 2] = [4, 3, 3]"
    by (simp add: partition_l_n)
  then show ?thesis using assms by (simp add: partition_l_n)
qed

theorem remainder_tie_break_witness:
  "(1::int) \<le> 7 \<and> (1::int) \<le> 4
   \<and> map (\<lambda>q. l_n (partition 0 1 7 4 q)) [0, 1, 2, 3] = [2, 2, 2, 1]"
  using remainder_tie_break [of 7 4 0 1 0] remainder_tie_break [of 7 4 0 1 1]
    remainder_tie_break [of 7 4 0 1 2] remainder_tie_break [of 7 4 0 1 3]
  by simp

subsection \<open>Contiguity and coverage\<close>

text \<open>
  C3. For every \<open>n \<ge> 1\<close>, \<open>p \<ge> 1\<close> and rank in \<open>[0, p)\<close>, the computed \<open>local_a\<close> is
  \<open>a + h * (sum of local_n over the ranks below)\<close> with \<open>h = (b - a) / n\<close>, and
  \<open>local_b = local_a + local_n * h\<close>; hence, in exact arithmetic, \<open>local_b\<close> of rank
  \<open>r\<close> is \<open>local_a\<close> of rank \<open>r + 1\<close> for every \<open>r\<close> in \<open>[0, p-1)\<close>, rank 0 starts at
  \<open>a\<close> and rank \<open>p - 1\<close> ends at \<open>b\<close>.
\<close>

theorem partition_contiguity:
  assumes "1 \<le> n" "1 \<le> p" "0 \<le> r" "r < p"
  shows "l_a (partition a b n p r) =
           a + (b - a) / real_of_int n
               * real_of_int (sum_list (map (\<lambda>q. l_n (partition a b n p q)) [0..r - 1]))
         \<and> l_b (partition a b n p r) =
             l_a (partition a b n p r)
             + real_of_int (l_n (partition a b n p r)) * ((b - a) / real_of_int n)
         \<and> (r < p - 1 \<longrightarrow> l_b (partition a b n p r) = l_a (partition a b n p (r + 1)))
         \<and> l_a (partition a b n p 0) = a
         \<and> l_b (partition a b n p (p - 1)) = b"
proof -
  let ?h = "(b - a) / real_of_int n"
  have start: "l_a (partition a b n p q) = a + ?h * real_of_int (count_below a b n p q)"
    if "0 \<le> q" for q
    using partition_l_a [OF assms(1,2) that] .
  have stop: "l_b (partition a b n p q) = a + ?h * real_of_int (count_below a b n p (q + 1))"
    if "0 \<le> q" for q
    unfolding partition_l_b partition_l_h start [OF that] count_below_step [OF that]
    by (simp add: algebra_simps)
  have first: "l_a (partition a b n p 0) = a"
    using start [of 0] by (simp add: count_below_def)
  have "l_b (partition a b n p (p - 1)) = a + ?h * real_of_int n"
    using stop [of "p - 1"] assms(2) count_below_all [OF assms(1,2), of a b] by simp
  then have last: "l_b (partition a b n p (p - 1)) = b"
    using assms(1) by simp
  have touch: "l_b (partition a b n p r) = l_a (partition a b n p (r + 1))"
    using stop [OF assms(3)] start [of "r + 1"] assms(3) by simp
  show ?thesis
    using start [OF assms(3)] touch first last
    by (simp add: count_below_def partition_l_b partition_l_h)
qed

theorem partition_contiguity_witness:
  "(1::int) \<le> 10 \<and> (1::int) \<le> 3 \<and> (0::int) \<le> 1 \<and> (1::int) < 3 \<and> (1::int) < 3 - 1
   \<and> l_b (partition 0 1 10 3 1) = l_a (partition 0 1 10 3 (1 + 1))
   \<and> l_a (partition 0 1 10 3 0) = 0
   \<and> l_b (partition 0 1 10 3 (3 - 1)) = 1"
  using partition_contiguity [of 10 3 1 0 1] by simp

section \<open>Partitioning and the estimate\<close>

lemma trapezoids_ends:
  assumes "u < v"
  shows "(g u + g v) / 2 + (\<Sum>k = u + 1..v - 1. g k) = trapezoids g u v"
  using assms
proof (induction v rule: int_gr_induct)
  case base
  then show ?case by (simp add: trapezoids_def)
next
  case (step i)
  have a: "{u + 1..i + 1 - 1} = insert i {u + 1..i - 1}" using step.hyps by auto
  have b: "{u..i + 1 - 1} = insert i {u..i - 1}" using step.hyps by auto
  show ?case
    using step.IH unfolding trapezoids_def a b by (simp add: field_simps)
qed

lemma trapezoids_append:
  assumes "u \<le> v" "v \<le> w"
  shows "trapezoids g u v + trapezoids g v w = trapezoids g u w"
proof -
  have s: "{u..w - 1} = {u..v - 1} \<union> {v..w - 1}" using assms by auto
  have d: "{u..v - 1} \<inter> {v..w - 1} = {}" by auto
  show ?thesis
    unfolding trapezoids_def s by (simp add: sum.union_disjoint d)
qed

text \<open>
  A call of \<open>Trap\<close> on the samples number \<open>u\<close> to \<open>u + m\<close> of the global grid, with at
  least one subinterval, is \<open>h\<close> times the trapezoids number \<open>u\<close> to \<open>u + m - 1\<close>.
\<close>

lemma Trap_cell:
  assumes "1 \<le> m"
  shows "Trap (a + h * real_of_int u) (a + h * real_of_int (u + m)) m h
           = h * trapezoids (\<lambda>k. f (a + real_of_int k * h)) u (u + m)"
proof -
  let ?g = "\<lambda>k. f (a + real_of_int k * h)"
  have re: "(\<Sum>i = 1..m - 1. f (a + h * real_of_int u + real_of_int i * h))
          = (\<Sum>k = u + 1..u + m - 1. ?g k)"
    by (rule sum.reindex_bij_witness [of _ "\<lambda>k. k - u" "\<lambda>i. i + u"])
       (auto simp: algebra_simps)
  have "Trap (a + h * real_of_int u) (a + h * real_of_int (u + m)) m h
          = h * ((?g u + ?g (u + m)) / 2 + (\<Sum>k = u + 1..u + m - 1. ?g k))"
    unfolding Trap_eq_sum re by (simp add: algebra_simps)
  also have "\<dots> = h * trapezoids ?g u (u + m)"
    using trapezoids_ends [of u "u + m" ?g] assms by simp
  finally show ?thesis .
qed

lemma l_n_ge_1:
  assumes "1 \<le> p" "p \<le> n"
  shows "1 \<le> l_n (partition a b n p r)"
proof -
  have "0 < n div p" using assms pos_imp_zdiv_pos_iff [of p n] by simp
  then show ?thesis using assms by (simp add: partition_l_n)
qed

lemma local_integral_cell:
  assumes "1 \<le> p" "p \<le> n" "0 \<le> r"
  shows "local_integral a b n p r
           = (b - a) / real_of_int n
             * trapezoids (\<lambda>k. f (a + real_of_int k * ((b - a) / real_of_int n)))
                 (count_below a b n p r) (count_below a b n p (r + 1))"
proof -
  have n1: "1 \<le> n" using assms by linarith
  let ?h = "(b - a) / real_of_int n"
  let ?m = "l_n (partition a b n p r)"
  have la: "l_a (partition a b n p r) = a + ?h * real_of_int (count_below a b n p r)"
    using partition_l_a [OF n1 assms(1,3)] .
  have lb: "l_b (partition a b n p r) = a + ?h * real_of_int (count_below a b n p r + ?m)"
    unfolding partition_l_b la partition_l_h by (simp add: algebra_simps)
  show ?thesis
    unfolding local_integral_def Let_def la lb partition_l_h count_below_step [OF assms(3)]
    using Trap_cell [OF l_n_ge_1 [OF assms(1,2)]] .
qed

lemma partial_total:
  assumes "1 \<le> p" "p \<le> n" "0 \<le> k"
  shows "sum_list (map (local_integral a b n p) [0..k - 1])
           = (b - a) / real_of_int n
             * trapezoids (\<lambda>k. f (a + real_of_int k * ((b - a) / real_of_int n)))
                 0 (count_below a b n p k)"
  using assms(3)
proof (induction k rule: int_ge_induct)
  case base
  then show ?case by (simp add: count_below_def trapezoids_def)
next
  case (step i)
  have n1: "1 \<le> n" using assms by linarith
  let ?h = "(b - a) / real_of_int n"
  let ?g = "\<lambda>k. f (a + real_of_int k * ?h)"
  have "sum_list (map (local_integral a b n p) [0..i + 1 - 1])
          = sum_list (map (local_integral a b n p) [0..i - 1]) + local_integral a b n p i"
    using sum_list_upto_snoc [OF step.hyps, of "local_integral a b n p"] by simp
  also have "\<dots> = ?h * trapezoids ?g 0 (count_below a b n p i)
                    + ?h * trapezoids ?g (count_below a b n p i) (count_below a b n p (i + 1))"
    unfolding step.IH local_integral_cell [OF assms(1,2) step.hyps] ..
  also have "\<dots> = ?h * (trapezoids ?g 0 (count_below a b n p i)
                    + trapezoids ?g (count_below a b n p i) (count_below a b n p (i + 1)))"
    by (simp only: distrib_left)
  also have "\<dots> = ?h * trapezoids ?g 0 (count_below a b n p (i + 1))"
    using trapezoids_append [of 0 "count_below a b n p i" "count_below a b n p (i + 1)" ?g]
      count_below_mono [OF n1 assms(1) step.hyps, of a b]
    by simp
  finally show ?case .
qed

text \<open>
  With at most as many processes as subintervals, the reduced sum is the estimate of a
  single call of \<open>Trap\<close> on the whole interval.
\<close>

lemma total_eq_Trap:
  assumes "1 \<le> p" "p \<le> n"
  shows "total a b n p = Trap a b n ((b - a) / real_of_int n)"
proof -
  have n1: "1 \<le> n" using assms by linarith
  have p0: "0 \<le> p" using assms by linarith
  let ?h = "(b - a) / real_of_int n"
  have b: "a + ?h * real_of_int (0 + n) = b" using n1 by simp
  have "Trap a b n ?h = ?h * trapezoids (\<lambda>k. f (a + real_of_int k * ?h)) 0 (0 + n)"
    using Trap_cell [OF n1, of a ?h 0] unfolding b by simp
  then show ?thesis
    unfolding total_def partial_total [OF assms p0] count_below_all [OF n1 assms(1)] by simp
qed

text \<open>
  C5. Partitioning does not change the result: for \<open>a = 0\<close>, \<open>b = 1\<close>, \<open>n = 1024\<close> and
  every \<open>p\<close> in \<open>{1, 2, 4, 8}\<close>, the sum over all ranks of the local estimates equals, in
  exact arithmetic, the single-process estimate \<open>Trap a b n h\<close> computed with \<open>p = 1\<close>.
\<close>

theorem partitioning_preserves_estimate:
  "total 0 1 1024 1 = Trap 0 1 1024 (1 / 1024)
   \<and> total 0 1 1024 2 = total 0 1 1024 1
   \<and> total 0 1 1024 4 = total 0 1 1024 1
   \<and> total 0 1 1024 8 = total 0 1 1024 1"
  using total_eq_Trap [of 1 1024 0 1] total_eq_Trap [of 2 1024 0 1]
    total_eq_Trap [of 4 1024 0 1] total_eq_Trap [of 8 1024 0 1]
  by simp

section \<open>More processes than subintervals\<close>

lemma Trap_zero_width: "Trap x x 0 h = h * f x"
  by (simp add: Trap_eq_sum)

text \<open>
  With \<open>p > n\<close> the ranks from \<open>n\<close> on get no subinterval and the empty range
  \<open>[b, b]\<close>; the value they hand to the reduction is \<open>h * f b\<close>.
\<close>

lemma idle_rank:
  assumes "1 \<le> n" "n < p" "n \<le> r"
  shows "l_n (partition a b n p r) = 0 \<and> l_a (partition a b n p r) = b
         \<and> l_b (partition a b n p r) = b
         \<and> local_integral a b n p r = (b - a) / real_of_int n * f b"
proof -
  have p1: "1 \<le> p" using assms by linarith
  have d: "n div p = 0" and m: "n mod p = n" using assms by simp_all
  have ln: "l_n (partition a b n p r) = 0"
    using assms p1 by (simp add: partition_l_n d m)
  have la: "l_a (partition a b n p r) = b"
    using assms p1 by (simp add: partition_def Let_def sdiv_pos smod_pos d m)
  have lb: "l_b (partition a b n p r) = b"
    unfolding partition_l_b ln la by simp
  show ?thesis
    unfolding local_integral_def Let_def ln la lb partition_l_h
    by (simp add: Trap_zero_width)
qed

text \<open>
  C1. For a run with \<open>p > n\<close>, a rank with \<open>local_n = 0\<close> and \<open>local_a = local_b\<close> is
  claimed to contribute exactly 0 to the reduction. The code at \<open>a = 0\<close>, \<open>b = 1\<close>,
  \<open>n = 2\<close>, \<open>p = 5\<close>: the ranks 2, 3 and 4 have \<open>local_n = 0\<close> and
  \<open>local_a = local_b = 1\<close>, each contributes \<open>h * f 1 = 1/2\<close>, and the reduced sum is
  \<open>15/8\<close>, while the trapezoidal estimate with 2 subintervals is \<open>3/8\<close>. A run
  without arguments (\<open>a = 0\<close>, \<open>b = 1\<close>, \<open>n = 1024\<close>) on 1030 processes: rank 1024
  has \<open>local_n = 0\<close> and \<open>local_a = local_b = 1\<close> and contributes \<open>1/1024\<close>.
\<close>

theorem zero_width_rank_contribution:
  "map (\<lambda>r. l_n (partition 0 1 2 5 r)) [2, 3, 4] = [0, 0, 0]
   \<and> map (\<lambda>r. l_a (partition 0 1 2 5 r)) [2, 3, 4] = [1, 1, 1]
   \<and> map (\<lambda>r. l_b (partition 0 1 2 5 r)) [2, 3, 4] = [1, 1, 1]
   \<and> Trap 1 1 0 (1 / 2) = 1 / 2
   \<and> map (local_integral 0 1 2 5) [2, 3, 4] = [1 / 2, 1 / 2, 1 / 2]
   \<and> total 0 1 2 5 = 15 / 8
   \<and> Trap 0 1 2 (1 / 2) = 3 / 8
   \<and> l_n (partition 0 1 1024 1030 1024) = 0
   \<and> l_a (partition 0 1 1024 1030 1024) = 1
   \<and> l_b (partition 0 1 1024 1030 1024) = 1
   \<and> local_integral 0 1 1024 1030 1024 = 1 / 1024"
  by (simp add: total_def local_integral_def partition_def Let_def
      signed_divide_int_def signed_modulo_int_def Trap_eq_sum f_def upto.simps)

section \<open>The command line and the abort\<close>

lemma process_args_none:
  "length argv \<le> 1 \<Longrightarrow> process_args atof atoi argv = Inr default_params"
  by (simp add: process_args_def)

lemma process_args_three:
  "4 \<le> length argv \<Longrightarrow>
   process_args atof atoi argv =
     Inr \<lparr>par_a = real_of_int (atof (argv ! 1)), par_b = real_of_int (atof (argv ! 2)),
          par_n = atoi (argv ! 3)\<rparr>"
  by (simp add: process_args_def call_on_arg_def argv_read_def default_params_def)

lemma process_args_one:
  "length argv = 2 \<Longrightarrow> process_args atof atoi argv = Inl (Null_Arg 2)"
  by (simp add: process_args_def call_on_arg_def argv_read_def)

lemma process_args_two:
  "length argv = 3 \<Longrightarrow> process_args atof atoi argv = Inl (Null_Arg 3)"
  by (simp add: process_args_def call_on_arg_def argv_read_def)

lemma of_int_not_half: "real_of_int k \<noteq> 1 / 2"
proof -
  have "2 * k \<noteq> 1" by presburger
  then have "real_of_int (2 * k) \<noteq> 1" by (metis of_int_eq_1_iff)
  then show ?thesis by auto
qed

lemma of_int_not_three_halves: "real_of_int k \<noteq> 3 / 2"
proof -
  have "2 * k \<noteq> 3" by presburger
  then have "real_of_int (2 * k) \<noteq> 3" by (metis of_int_eq_numeral_iff)
  then show ?thesis by auto
qed

text \<open>
  C8. At rank 0, a run without command-line arguments uses the defaults \<open>a = 0.0\<close>,
  \<open>b = 1.0\<close>, \<open>n = 1024\<close>; when the positional arguments are supplied, the first is
  claimed to be parsed as floating point into \<open>a\<close>, the second as floating point into
  \<open>b\<close> and the third as integer into \<open>n\<close>. The code on the arguments \<open>0.5 1.5 8\<close>:
  \<open>n\<close> is \<open>atoi\<close> of the third, but \<open>a\<close> and \<open>b\<close> receive the conversion of the \<open>int\<close>
  that the undeclared \<open>atof\<close> call yields, which is a whole number and so neither
  \<open>0.5\<close> nor \<open>1.5\<close>; a call that yields 0 makes the run integrate from 0 to 0.
\<close>

theorem command_line_floats_not_parsed:
  "process_args atof atoi [prog] = Inr \<lparr>par_a = 0, par_b = 1, par_n = 1024\<rparr>
   \<and> take 3 (snd (main atof atoi p [prog]))
       = [MPI_Bcast_float 0, MPI_Bcast_float 1, MPI_Bcast_int 1024]
   \<and> process_args atof atoi [prog, ''0.5'', ''1.5'', ''8'']
       = Inr \<lparr>par_a = real_of_int (atof ''0.5''), par_b = real_of_int (atof ''1.5''),
              par_n = atoi ''8''\<rparr>
   \<and> real_of_int (atof ''0.5'') \<noteq> 1 / 2
   \<and> real_of_int (atof ''1.5'') \<noteq> 3 / 2
   \<and> process_args (\<lambda>s. 0) (\<lambda>s. 8) [prog, ''0.5'', ''1.5'', ''8'']
       = Inr \<lparr>par_a = 0, par_b = 0, par_n = 8\<rparr>"
proof -
  have half: "real_of_int (atof ''0.5'') \<noteq> 1 / 2"
    by (rule of_int_not_half)
  have three_halves: "real_of_int (atof ''1.5'') \<noteq> 3 / 2"
    by (rule of_int_not_three_halves)
  show ?thesis
    using half three_halves
    by (simp add: process_args_none process_args_three main_def default_params_def)
qed

text \<open>
  C10. The argument-parsing branch is taken whenever \<open>argc > 1\<close> and reads \<open>argv[1]\<close>,
  \<open>argv[2]\<close> and \<open>argv[3]\<close> unconditionally. The three reads yield argument
  strings, and parsing succeeds, only when \<open>argc \<ge> 4\<close>. With exactly one
  positional argument \<open>argv[2]\<close> is the terminating null pointer and \<open>atof\<close> is called
  on it (\<open>argv[3]\<close>, past the array, is not reached). With exactly two, all three reads
  are within the array, \<open>argv[3]\<close> is the terminating null pointer and \<open>atoi\<close> is called
  on it.
\<close>

theorem argument_reads_in_bounds:
  assumes "1 < length argv"
  shows "((\<exists>ps. process_args atof atoi argv = Inr ps) \<longleftrightarrow> 4 \<le> length argv)
         \<and> ((\<forall>i \<in> {1, 2, 3}. \<exists>s. argv_read argv i = Inr (Some s)) \<longleftrightarrow> 4 \<le> length argv)
         \<and> (length argv = 2 \<longrightarrow>
              argv_read argv 2 = Inr None \<and> argv_read argv 3 = Inl (Bad_Arg_Read 3)
              \<and> process_args atof atoi argv = Inl (Null_Arg 2))
         \<and> (length argv = 3 \<longrightarrow>
              (\<forall>i \<in> {1, 2, 3}. \<exists>q. argv_read argv i = Inr q) \<and> argv_read argv 3 = Inr None
              \<and> process_args atof atoi argv = Inl (Null_Arg 3))
         \<and> (length argv < 4 \<longrightarrow> (\<exists>i. main atof atoi p argv = (Crashed (Null_Arg i), [])))"
proof -
  consider "length argv = 2" | "length argv = 3" | "4 \<le> length argv"
    using assms by linarith
  then show ?thesis
  proof cases
    case 1
    then show ?thesis by (simp add: process_args_one main_def argv_read_def)
  next
    case 2
    then show ?thesis by (simp add: process_args_two main_def argv_read_def)
  next
    case 3
    then show ?thesis by (simp add: process_args_three argv_read_def)
  qed
qed

theorem argument_reads_in_bounds_witness:
  "1 < length [''trap'', ''0'']
   \<and> process_args (\<lambda>s. 0) (\<lambda>s. 0) [''trap'', ''0''] = Inl (Null_Arg 2)
   \<and> 1 < length [''trap'', ''0'', ''1'']
   \<and> process_args (\<lambda>s. 0) (\<lambda>s. 0) [''trap'', ''0'', ''1''] = Inl (Null_Arg 3)
   \<and> 1 < length [''trap'', ''0'', ''1'', ''8'']
   \<and> (\<exists>ps. process_args (\<lambda>s. 0) (\<lambda>s. 0) [''trap'', ''0'', ''1'', ''8''] = Inr ps)"
  using argument_reads_in_bounds [of "[''trap'', ''0'']" "\<lambda>s. 0" "\<lambda>s. 0" 1]
    argument_reads_in_bounds [of "[''trap'', ''0'', ''1'']" "\<lambda>s. 0" "\<lambda>s. 0" 1]
    argument_reads_in_bounds [of "[''trap'', ''0'', ''1'', ''8'']" "\<lambda>s. 0" "\<lambda>s. 0" 1]
  by simp

text \<open>
  Read literally, C10 says that the reads are within the array only when \<open>argc \<ge> 4\<close>
  and that two positional arguments make the read of \<open>argv[3]\<close> out of bounds. This
  fails for \<open>argc = 3\<close>: every one of the three reads is within the array.
\<close>

theorem argument_reads_counterexample:
  "length [''trap'', ''0'', ''1''] = 3
   \<and> \<not> 4 \<le> length [''trap'', ''0'', ''1'']
   \<and> argv_read [''trap'', ''0'', ''1''] 1 = Inr (Some ''0'')
   \<and> argv_read [''trap'', ''0'', ''1''] 2 = Inr (Some ''1'')
   \<and> argv_read [''trap'', ''0'', ''1''] 3 = Inr None
   \<and> argv_read [''trap'', ''0'', ''1''] 3 \<noteq> Inl (Bad_Arg_Read 3)"
  by (simp add: argv_read_def)

text \<open>
  C6. For every input with \<open>n \<le> 0\<close> and any \<open>p\<close>, rank 0 prints an error message and
  aborts the whole run with status 1; this happens once, before the parameters are
  broadcast and before any partitioning. For \<open>n \<ge> 1\<close> the abort path is not taken.
\<close>

theorem invalid_n_aborts:
  assumes "process_args atof atoi argv = Inr ps"
  shows "(par_n ps \<le> 0 \<longrightarrow>
            main atof atoi p argv = (Aborted 1, [Printf error_message, MPI_Abort 1])
            \<and> error_message \<noteq> [])
         \<and> (1 \<le> par_n ps \<longrightarrow>
            fst (main atof atoi p argv) = Finalized
            \<and> take 3 (snd (main atof atoi p argv))
                = [MPI_Bcast_float (par_a ps), MPI_Bcast_float (par_b ps), MPI_Bcast_int (par_n ps)]
            \<and> (\<forall>c. MPI_Abort c \<notin> set (snd (main atof atoi p argv)))
            \<and> Printf error_message \<notin> set (snd (main atof atoi p argv)))"
  using assms by (auto simp: main_def Let_def print_process_def error_message_def)

theorem invalid_n_aborts_witness:
  "process_args (\<lambda>s. 0) (\<lambda>s. - 5) [''trap'', ''0'', ''1'', ''-5'']
     = Inr \<lparr>par_a = 0, par_b = 0, par_n = - 5\<rparr>
   \<and> main (\<lambda>s. 0) (\<lambda>s. - 5) 4 [''trap'', ''0'', ''1'', ''-5'']
     = (Aborted 1, [Printf error_message, MPI_Abort 1])
   \<and> process_args (\<lambda>s. 0) (\<lambda>s. 0) [''trap'', ''0'', ''1'', ''0'']
     = Inr \<lparr>par_a = 0, par_b = 0, par_n = 0\<rparr>
   \<and> main (\<lambda>s. 0) (\<lambda>s. 0) 4 [''trap'', ''0'', ''1'', ''0'']
     = (Aborted 1, [Printf error_message, MPI_Abort 1])
   \<and> process_args (\<lambda>s. 0) (\<lambda>s. 0) [''trap''] = Inr \<lparr>par_a = 0, par_b = 1, par_n = 1024\<rparr>
   \<and> fst (main (\<lambda>s. 0) (\<lambda>s. 0) 4 [''trap'']) = Finalized"
proof -
  have a: "process_args (\<lambda>s. 0) (\<lambda>s. - 5) [''trap'', ''0'', ''1'', ''-5'']
             = Inr \<lparr>par_a = 0, par_b = 0, par_n = - 5\<rparr>"
    by (simp add: process_args_three)
  have b: "process_args (\<lambda>s. 0) (\<lambda>s. 0) [''trap'', ''0'', ''1'', ''0'']
             = Inr \<lparr>par_a = 0, par_b = 0, par_n = 0\<rparr>"
    by (simp add: process_args_three)
  have c: "process_args (\<lambda>s. 0) (\<lambda>s. 0) [''trap'']
             = Inr \<lparr>par_a = 0, par_b = 1, par_n = 1024\<rparr>"
    by (simp add: process_args_none default_params_def)
  show ?thesis
    using invalid_n_aborts [OF a, of 4] invalid_n_aborts [OF b, of 4]
      invalid_n_aborts [OF c, of 4] a b c
    by simp
qed

section \<open>The closed form\<close>

lemma main_last_event:
  assumes "process_args atof atoi argv = Inr ps" "1 \<le> par_n ps"
  shows "last (snd (main atof atoi p argv)) = Print_True_Value (true_value (par_a ps) (par_b ps))"
  using assms by (simp add: main_def Let_def)

text \<open>
  C9. The true value reported by the coordinator is \<open>(b\<^sup>3 - a\<^sup>3) / 3\<close>: the last line of
  every run that is not aborted prints, in exact arithmetic, this value of the \<open>a\<close> and
  \<open>b\<close> of the run; it is \<open>1/3\<close> for \<open>a = 0\<close>, \<open>b = 1\<close> (as in a run without arguments)
  and \<open>8/3\<close> for \<open>a = 0\<close>, \<open>b = 2\<close>.
\<close>

theorem true_value_closed_form:
  assumes "process_args atof atoi argv = Inr ps" "1 \<le> par_n ps"
  shows "last (snd (main atof atoi p argv))
           = Print_True_Value ((par_b ps ^ 3 - par_a ps ^ 3) / 3)
         \<and> (par_a ps = 0 \<and> par_b ps = 1 \<longrightarrow>
              last (snd (main atof atoi p argv)) = Print_True_Value (1 / 3))
         \<and> (par_a ps = 0 \<and> par_b ps = 2 \<longrightarrow>
              last (snd (main atof atoi p argv)) = Print_True_Value (8 / 3))
         \<and> true_value 0 1 = 1 / 3 \<and> true_value 0 2 = 8 / 3
         \<and> last (snd (main atof atoi p [prog])) = Print_True_Value (1 / 3)"
proof -
  have d: "process_args atof atoi [prog] = Inr default_params"
    by (simp add: process_args_none)
  have "last (snd (main atof atoi p [prog])) = Print_True_Value (1 / 3)"
    using main_last_event [OF d, of p] by (simp add: default_params_def true_value_def)
  then show ?thesis
    using main_last_event [OF assms, of p] by (auto simp: true_value_def)
qed

theorem true_value_closed_form_witness:
  "process_args (\<lambda>s. if s = ''2'' then 2 else 0) (\<lambda>s. 8) [''trap'', ''0'', ''2'', ''8'']
     = Inr \<lparr>par_a = 0, par_b = 2, par_n = 8\<rparr>
   \<and> last (snd (main (\<lambda>s. if s = ''2'' then 2 else 0) (\<lambda>s. 8) 4 [''trap'', ''0'', ''2'', ''8'']))
     = Print_True_Value (8 / 3)
   \<and> process_args (\<lambda>s. 0) (\<lambda>s. 0) [''trap''] = Inr \<lparr>par_a = 0, par_b = 1, par_n = 1024\<rparr>
   \<and> last (snd (main (\<lambda>s. 0) (\<lambda>s. 0) 4 [''trap''])) = Print_True_Value (1 / 3)"
proof -
  have a: "process_args (\<lambda>s. if s = ''2'' then 2 else 0) (\<lambda>s. 8) [''trap'', ''0'', ''2'', ''8'']
             = Inr \<lparr>par_a = 0, par_b = 2, par_n = 8\<rparr>"
    by (simp add: process_args_three)
  have b: "process_args (\<lambda>s. 0) (\<lambda>s. 0) [''trap'']
             = Inr \<lparr>par_a = 0, par_b = 1, par_n = 1024\<rparr>"
    by (simp add: process_args_none default_params_def)
  show ?thesis
    using true_value_closed_form [OF a, of 4] true_value_closed_form [OF b, of 4] a b
    by simp
qed

end
